theory Spec2Isabelle
  imports Main
begin

section \<open>JavaScript values, errors and strings\<close>

text \<open>
  The values that flow through the manual pool of \<^verbatim>\<open>src/index.js\<close>: a connection
  object of the MariaDB driver, identified by a number, or one of the two falsy values
  \<^verbatim>\<open>undefined\<close> and \<^verbatim>\<open>null\<close>.
\<close>

datatype js_value = Undefined | Null | Conn nat

fun truthy :: "js_value \<Rightarrow> bool" where
  "truthy Undefined = False"
| "truthy Null = False"
| "truthy (Conn c) = True"

text \<open>
  A thrown error is an \<^verbatim>\<open>Error\<close> object: \<^verbatim>\<open>name\<close> and \<^verbatim>\<open>message\<close> are strings (the
  empty message is falsy in a guard \<^verbatim>\<open>err.message && ...\<close>), \<^verbatim>\<open>code\<close> is set by the
  database driver only.
\<close>

record js_error =
  err_name :: string
  err_message :: string
  err_code :: "string option"

definition new_Error :: "string \<Rightarrow> js_error" where
  "new_Error msg = \<lparr>err_name = ''Error'', err_message = msg, err_code = None\<rparr>"

type_synonym 'a result = "js_error + 'a"

text \<open>\<^verbatim>\<open>String.prototype.includes\<close>: a case-sensitive search for a contiguous substring.\<close>

fun startsWith :: "string \<Rightarrow> string \<Rightarrow> bool" where
  "startsWith s [] = True"
| "startsWith [] (p # ps) = False"
| "startsWith (c # cs) (p # ps) = (c = p \<and> startsWith cs ps)"

fun str_includes :: "string \<Rightarrow> string \<Rightarrow> bool" where
  "str_includes [] p = (p = [])"
| "str_includes (c # cs) p = (startsWith (c # cs) p \<or> str_includes cs p)"

section \<open>Configuration, environment and state\<close>

text \<open>
  Of \<^verbatim>\<open>dbConfig\<close> only \<^verbatim>\<open>connectionLimit\<close> is read by the pool; host, user, database and
  port come from the process environment and only travel to the external calls.
\<close>

record db_config =
  connectionLimit :: nat

definition dbConfig :: db_config where
  "dbConfig = \<lparr>connectionLimit = 5\<rparr>"

text \<open>
  A numeric column value as the driver hands it over: a JavaScript number, or a
  \<^verbatim>\<open>BigInt\<close> (the driver's value for a \<^verbatim>\<open>BIGINT\<close> column).
\<close>

datatype js_number = JNumber int | JBigInt int

record row =
  row_id :: js_number
  row_name :: string
  row_email :: string

text \<open>
  What the outside world answers during one request: the token service, the driver's
  \<^verbatim>\<open>createConnection\<close> (given the password), and \<^verbatim>\<open>ping\<close> and \<^verbatim>\<open>query\<close> of a connection.
\<close>

record env =
  generateAuthenticationToken :: "js_error + string"
  createConnection :: "string \<Rightarrow> js_error + nat"
  ping :: "nat \<Rightarrow> js_error option"
  query :: "nat \<Rightarrow> string \<Rightarrow> js_error + row list"

text \<open>
  The module state is \<^verbatim>\<open>activeConnections\<close>. The rest of the record is the world the
  code acts on: which connections answer \<^verbatim>\<open>isValid()\<close> with true, whose \<^verbatim>\<open>end()\<close> throws,
  and three logs of the calls made (\<^verbatim>\<open>getAuthToken\<close>, \<^verbatim>\<open>isValid\<close>, \<^verbatim>\<open>end\<close>).
\<close>

record server_state =
  activeConnections :: "js_value list"
  live :: "nat set"
  endThrows :: "nat \<Rightarrow> js_error option"
  tokenFetches :: nat
  validChecks :: "nat list"
  ended :: "nat list"

section \<open>Token provider and connection creation\<close>

text \<open>
  \<^verbatim>\<open>getAuthToken\<close> builds the client and awaits \<^verbatim>\<open>generateAuthenticationToken\<close> inside
  \<^verbatim>\<open>try\<close>; the outcome of that call is the environment's. Building the client is taken to
  succeed. Every call is counted in \<open>tokenFetches\<close>. Logging is not modelled.
\<close>

definition permissionMessage :: string where
  "permissionMessage =
     ''Permission denied: EC2 instance doesn't have appropriate IAM role for RDS access''"

definition getAuthToken :: "env \<Rightarrow> server_state \<Rightarrow> string result \<times> server_state" where
  "getAuthToken e s =
     (let s1 = s\<lparr>tokenFetches := tokenFetches s + 1\<rparr> in
      case generateAuthenticationToken e of
        Inr token \<Rightarrow> (Inr token, s1)
      | Inl err \<Rightarrow>
          if err_name err = ''CredentialsProviderError'' \<or>
             err_name err = ''AccessDenied'' \<or>
             str_includes (err_message err) ''credentials'' \<or>
             str_includes (err_message err) ''permission'' \<or>
             str_includes (err_message err) ''access denied''
          then (Inl (new_Error permissionMessage), s1)
          else (Inl err, s1))"

text \<open>The \<^verbatim>\<open>catch\<close> block of \<^verbatim>\<open>getConnection\<close>: the error it throws for the one it caught.\<close>

definition getConnection_catch :: "js_error \<Rightarrow> js_error" where
  "getConnection_catch err =
     (if err_message err \<noteq> [] \<and> str_includes (err_message err) ''Permission denied'' then err
      else if err_code err = Some ''ER_ACCESS_DENIED_ERROR''
      then new_Error
             ''Permission denied: Database access denied. Check EC2 IAM role permissions.''
      else err)"

definition getConnection :: "env \<Rightarrow> server_state \<Rightarrow> nat result \<times> server_state" where
  "getConnection e s =
     (case getAuthToken e s of
        (Inl err, s1) \<Rightarrow> (Inl (getConnection_catch err), s1)
      | (Inr token, s1) \<Rightarrow>
          (case createConnection e token of
             Inl err \<Rightarrow> (Inl (getConnection_catch err), s1)
           | Inr c \<Rightarrow> (Inr c, s1)))"

section \<open>The manual pool\<close>

definition isValid :: "nat \<Rightarrow> server_state \<Rightarrow> bool \<times> server_state" where
  "isValid c s = (c \<in> live s, s\<lparr>validChecks := validChecks s @ [c]\<rparr>)"

definition conn_end :: "nat \<Rightarrow> server_state \<Rightarrow> unit result \<times> server_state" where
  "conn_end c s =
     ((case endThrows s c of None \<Rightarrow> Inr () | Some err \<Rightarrow> Inl err),
      s\<lparr>ended := ended s @ [c]\<rparr>)"

text \<open>\<^verbatim>\<open>try { conn.end(); } catch (e) { }\<close>: the call is made, what it throws is dropped.\<close>

definition try_end :: "nat \<Rightarrow> server_state \<Rightarrow> server_state" where
  "try_end c s = (case conn_end c s of (Inl err, s1) \<Rightarrow> s1 | (Inr u, s1) \<Rightarrow> s1)"

text \<open>\<^verbatim>\<open>activeConnections.pop()\<close>: the last element, \<^verbatim>\<open>undefined\<close> on an empty array.\<close>

definition pop :: "server_state \<Rightarrow> js_value \<times> server_state" where
  "pop s =
     (case activeConnections s of
        [] \<Rightarrow> (Undefined, s)
      | x # xs \<Rightarrow> (last (x # xs), s\<lparr>activeConnections := butlast (x # xs)\<rparr>))"

text \<open>
  In \<^verbatim>\<open>conn && !conn.isValid()\<close> a falsy \<^verbatim>\<open>conn\<close> short-circuits: \<^verbatim>\<open>isValid\<close> is called on
  connections only.
\<close>

function getPoolConnection :: "env \<Rightarrow> server_state \<Rightarrow> js_value result \<times> server_state" where
  "getPoolConnection e s =
     (if length (activeConnections s) > 0 then
        (case pop s of
           (conn, s1) \<Rightarrow>
             (case conn of
                Conn c \<Rightarrow>
                  (case isValid c s1 of
                     (ok, s2) \<Rightarrow>
                       if \<not> ok then getPoolConnection e (try_end c s2)
                       else (Inr conn, s2))
              | _ \<Rightarrow> (Inr conn, s1)))
      else
        (case getConnection e s of
           (Inl err, s1) \<Rightarrow> (Inl err, s1)
         | (Inr c, s1) \<Rightarrow> (Inr (Conn c), s1)))"
  by pat_completeness auto
termination
proof (relation "measure (\<lambda>(e, s). length (activeConnections s))")
  show "wf (measure (\<lambda>(e, s). length (activeConnections s)))"
    by simp
next
  fix e :: env and s x conn s1 c x2 ok s2
  assume nonempty: "0 < length (activeConnections s)"
    and p: "(conn, s1) = pop s"
    and v: "(ok, s2) = isValid c s1"
  from nonempty obtain y ys where ys: "activeConnections s = y # ys"
    by (cases "activeConnections s") auto
  from p ys have "activeConnections s1 = butlast (y # ys)"
    by (simp add: pop_def)
  with v have "activeConnections (try_end c s2) = butlast (y # ys)"
    by (simp add: isValid_def try_end_def conn_end_def split: option.splits)
  with ys show "((e, try_end c s2), (e, s)) \<in> measure (\<lambda>(e, s). length (activeConnections s))"
    by simp
qed

declare getPoolConnection.simps [simp del]

text \<open>\<^verbatim>\<open>dbConfig.connectionLimit || 5\<close>: the number 0 is falsy.\<close>

definition idleCap :: nat where
  "idleCap = (if connectionLimit dbConfig = 0 then 5 else connectionLimit dbConfig)"

definition releaseConnection :: "js_value \<Rightarrow> server_state \<Rightarrow> unit result \<times> server_state" where
  "releaseConnection conn s =
     (case conn of
        Conn c \<Rightarrow>
          (case isValid c s of
             (ok, s1) \<Rightarrow>
               if ok then
                 (if length (activeConnections s1) < idleCap
                  then (Inr (), s1\<lparr>activeConnections := activeConnections s1 @ [conn]\<rparr>)
                  else (Inr (), try_end c s1))
               else (Inr (), s1))
      | _ \<Rightarrow> (Inr (), s))"

section \<open>HTTP handlers\<close>

datatype body =
    Text string
  | StatusMessage string string
  | ErrorBody string
  | Rows "row list"

record response =
  res_status :: nat
  res_body :: body

definition health_catch :: "js_error \<Rightarrow> response" where
  "health_catch err =
     (if err_message err \<noteq> [] \<and> str_includes (err_message err) ''Permission denied''
      then \<lparr>res_status = 403, res_body = StatusMessage ''ERROR'' permissionMessage\<rparr>
      else \<lparr>res_status = 500,
            res_body = StatusMessage ''ERROR'' (''Health check failed: '' @ err_message err)\<rparr>)"

definition health :: "env \<Rightarrow> server_state \<Rightarrow> response \<times> server_state" where
  "health e s =
     (case getConnection e s of
        (Inl err, s1) \<Rightarrow> (health_catch err, s1)
      | (Inr c, s1) \<Rightarrow>
          (let pinged = ping e c; s2 = try_end c s1 in
           case pinged of
             Some err \<Rightarrow> (health_catch err, s2)
           | None \<Rightarrow>
               (\<lparr>res_status = 200,
                 res_body = Text ''I am OK. Database connection successful.''\<rparr>, s2)))"

definition students_catch :: "js_error \<Rightarrow> response" where
  "students_catch err =
     (if err_message err \<noteq> [] \<and>
         (str_includes (err_message err) ''Permission denied'' \<or>
          str_includes (err_message err) ''access denied'' \<or>
          err_code err = Some ''ER_ACCESS_DENIED_ERROR'')
      then \<lparr>res_status = 403, res_body = ErrorBody permissionMessage\<rparr>
      else \<lparr>res_status = 500, res_body = ErrorBody ''Failed to retrieve student data.''\<rparr>)"

text \<open>
  \<^verbatim>\<open>res.send(rows)\<close> stands inside the \<^verbatim>\<open>try\<close> block. Express serialises an array with
  \<^verbatim>\<open>JSON.stringify\<close>, which throws a \<^verbatim>\<open>TypeError\<close> on a \<^verbatim>\<open>BigInt\<close> before anything is sent; the
  handler's own \<^verbatim>\<open>catch\<close> then answers.
\<close>

definition serializable :: "row list \<Rightarrow> bool" where
  "serializable rows =
     list_all (\<lambda>r. case row_id r of JNumber n \<Rightarrow> True | JBigInt n \<Rightarrow> False) rows"

definition bigint_error :: js_error where
  "bigint_error =
     \<lparr>err_name = ''TypeError'', err_message = ''Do not know how to serialize a BigInt'',
      err_code = None\<rparr>"

definition res_send_rows :: "row list \<Rightarrow> response result" where
  "res_send_rows rows =
     (if serializable rows then Inr \<lparr>res_status = 200, res_body = Rows rows\<rparr>
      else Inl bigint_error)"

text \<open>
  In \<^verbatim>\<open>/students\<close> the \<^verbatim>\<open>finally\<close> block ends the connection whenever \<^verbatim>\<open>conn\<close> was
  assigned, that is whenever \<^verbatim>\<open>getConnection\<close> returned.
\<close>

definition students :: "env \<Rightarrow> server_state \<Rightarrow> response \<times> server_state" where
  "students e s =
     (case getConnection e s of
        (Inl err, s1) \<Rightarrow> (students_catch err, s1)
      | (Inr c, s1) \<Rightarrow>
          (case query e c ''SELECT id, name, email FROM students'' of
             Inl err \<Rightarrow> (students_catch err, try_end c s1)
           | Inr rows \<Rightarrow>
               (case res_send_rows rows of
                  Inl err \<Rightarrow> (students_catch err, try_end c s1)
                | Inr res \<Rightarrow> (res, try_end c s1))))"

section \<open>Runs of the pool\<close>

text \<open>
  The module starts with \<^verbatim>\<open>let activeConnections = []\<close>. A run is a sequence of calls of
  \<^verbatim>\<open>getPoolConnection\<close> and \<^verbatim>\<open>releaseConnection\<close>; between two calls the world may change
  which connections are live and whose \<^verbatim>\<open>end()\<close> throws. A call is one step:
  \<^verbatim>\<open>releaseConnection\<close> is synchronous, and \<^verbatim>\<open>getPoolConnection\<close> reads and pops the pool
  before its only \<^verbatim>\<open>await\<close> (of \<^verbatim>\<open>getConnection\<close>), after which it does not touch the pool.
\<close>

definition initial :: "nat set \<Rightarrow> (nat \<Rightarrow> js_error option) \<Rightarrow> server_state" where
  "initial L E =
     \<lparr>activeConnections = [], live = L, endThrows = E, tokenFetches = 0,
      validChecks = [], ended = []\<rparr>"

datatype event =
    Acquire env
  | Release js_value
  | WorldChange "nat set" "nat \<Rightarrow> js_error option"

fun step :: "event \<Rightarrow> server_state \<Rightarrow> server_state" where
  "step (Acquire e) s = snd (getPoolConnection e s)"
| "step (Release v) s = snd (releaseConnection v s)"
| "step (WorldChange L E) s = s\<lparr>live := L, endThrows := E\<rparr>"

fun run :: "event list \<Rightarrow> server_state \<Rightarrow> server_state" where
  "run [] s = s"
| "run (ev # evs) s = run evs (step ev s)"

section \<open>The loop of \<^verbatim>\<open>getPoolConnection\<close> in closed form\<close>

text \<open>
  A pool entry is dead when it is a connection that answers \<^verbatim>\<open>isValid()\<close> with false.
  \<open>conn_ids\<close> lists the connections among some entries, in order.
\<close>

fun dead :: "nat set \<Rightarrow> js_value \<Rightarrow> bool" where
  "dead L (Conn c) = (c \<notin> L)"
| "dead L v = False"

fun conn_ids :: "js_value list \<Rightarrow> nat list" where
  "conn_ids [] = []"
| "conn_ids (Conn c # vs) = c # conn_ids vs"
| "conn_ids (v # vs) = conn_ids vs"

text \<open>
  What the recursion amounts to, read off the pool from its top (the end of the array):
  the dead entries on top are checked and ended, the first entry that is not dead is
  checked if it is a connection and handed out, and an exhausted pool leads to
  \<^verbatim>\<open>getConnection\<close>. It is proved equal to \<open>getPoolConnection\<close> below.
\<close>

definition acquire_closed :: "env \<Rightarrow> server_state \<Rightarrow> js_value result \<times> server_state" where
  "acquire_closed e s =
     (let stale = takeWhile (dead (live s)) (rev (activeConnections s));
          rest = dropWhile (dead (live s)) (rev (activeConnections s));
          s1 = s\<lparr>validChecks := validChecks s @ conn_ids stale,
                 ended := ended s @ conn_ids stale\<rparr>
      in case rest of
           [] \<Rightarrow>
             (case getConnection e (s1\<lparr>activeConnections := []\<rparr>) of
                (Inl err, s2) \<Rightarrow> (Inl err, s2)
              | (Inr c, s2) \<Rightarrow> (Inr (Conn c), s2))
         | v # vs \<Rightarrow>
             (Inr v, s1\<lparr>activeConnections := rev vs,
                        validChecks := validChecks s1 @ conn_ids [v]\<rparr>))"

section \<open>What a handler's \<^verbatim>\<open>catch\<close> block receives\<close>

text \<open>
  The error thrown inside the \<^verbatim>\<open>try\<close> block of a handler, if any: by \<^verbatim>\<open>getConnection\<close>,
  or else by \<^verbatim>\<open>conn.ping()\<close> in \<^verbatim>\<open>/health\<close>, and by \<^verbatim>\<open>conn.query(...)\<close> or else by
  \<^verbatim>\<open>res.send(rows)\<close> in \<^verbatim>\<open>/students\<close>.
\<close>

definition health_caught :: "env \<Rightarrow> server_state \<Rightarrow> js_error option" where
  "health_caught e s =
     (case fst (getConnection e s) of Inl err \<Rightarrow> Some err | Inr c \<Rightarrow> ping e c)"

definition students_caught :: "env \<Rightarrow> server_state \<Rightarrow> js_error option" where
  "students_caught e s =
     (case fst (getConnection e s) of
        Inl err \<Rightarrow> Some err
      | Inr c \<Rightarrow>
          (case query e c ''SELECT id, name, email FROM students'' of
             Inl err \<Rightarrow> Some err
           | Inr rows \<Rightarrow>
               (case res_send_rows rows of Inl err \<Rightarrow> Some err | Inr res \<Rightarrow> None)))"

section \<open>Sample errors and environments\<close>

definition denied_error :: js_error where
  "denied_error =
     \<lparr>err_name = ''AccessDenied'', err_message = ''User is not authorized'', err_code = None\<rparr>"

definition access_denied_text :: js_error where
  "access_denied_text =
     \<lparr>err_name = ''Error'', err_message = ''request failed: access denied by policy'',
      err_code = None\<rparr>"

definition timeout_error :: js_error where
  "timeout_error =
     \<lparr>err_name = ''TimeoutError'', err_message = ''socket hang up'', err_code = None\<rparr>"

definition sample_rows :: "row list" where
  "sample_rows =
     [\<lparr>row_id = JNumber 1, row_name = ''John Doe'', row_email = ''john@example.com''\<rparr>,
      \<lparr>row_id = JNumber 2, row_name = ''Jane Smith'', row_email = ''jane@example.com''\<rparr>]"

definition bigint_rows :: "row list" where
  "bigint_rows =
     [\<lparr>row_id = JNumber 1, row_name = ''John Doe'', row_email = ''john@example.com''\<rparr>,
      \<lparr>row_id = JBigInt 2, row_name = ''Jane Smith'', row_email = ''jane@example.com''\<rparr>]"

definition env_ok :: env where
  "env_ok =
     \<lparr>generateAuthenticationToken = Inr ''token'',
      createConnection = (\<lambda>pw. Inr 9),
      ping = (\<lambda>c. None),
      query = (\<lambda>c q. Inr sample_rows)\<rparr>"

definition env_denied :: env where
  "env_denied = env_ok\<lparr>generateAuthenticationToken := Inl denied_error\<rparr>"

definition env_denied_text :: env where
  "env_denied_text = env_ok\<lparr>generateAuthenticationToken := Inl access_denied_text\<rparr>"

definition env_timeout :: env where
  "env_timeout = env_ok\<lparr>generateAuthenticationToken := Inl timeout_error\<rparr>"

definition env_ping_fails :: env where
  "env_ping_fails = env_ok\<lparr>ping := (\<lambda>c. Some timeout_error)\<rparr>"

definition env_query_fails :: env where
  "env_query_fails = env_ok\<lparr>query := (\<lambda>c q. Inl timeout_error)\<rparr>"

definition env_bigint :: env where
  "env_bigint = env_ok\<lparr>query := (\<lambda>c q. Inr bigint_rows)\<rparr>"

section \<open>Auxiliary facts\<close>

subsection \<open>Strings\<close>

lemma startsWith_iff: "startsWith s p \<longleftrightarrow> (\<exists>b. s = p @ b)"
  by (induction s p rule: startsWith.induct) auto

lemma str_includes_iff: "str_includes s p \<longleftrightarrow> (\<exists>a b. s = a @ p @ b)"
proof (induction s)
  case Nil
  then show ?case by auto
next
  case (Cons c cs)
  have "(\<exists>a b. c # cs = a @ p @ b) \<longleftrightarrow> (\<exists>b. c # cs = p @ b) \<or> (\<exists>a b. cs = a @ p @ b)"
  proof
    assume "\<exists>a b. c # cs = a @ p @ b"
    then obtain a b where ab: "c # cs = a @ p @ b" by blast
    show "(\<exists>b. c # cs = p @ b) \<or> (\<exists>a b. cs = a @ p @ b)"
    proof (cases a)
      case Nil
      with ab show ?thesis by auto
    next
      case (Cons x a')
      with ab have "cs = a' @ p @ b" by simp
      then show ?thesis by blast
    qed
  next
    assume "(\<exists>b. c # cs = p @ b) \<or> (\<exists>a b. cs = a @ p @ b)"
    then show "\<exists>a b. c # cs = a @ p @ b"
    proof
      assume "\<exists>b. c # cs = p @ b"
      then obtain b where "c # cs = [] @ p @ b" by auto
      then show ?thesis by blast
    next
      assume "\<exists>a b. cs = a @ p @ b"
      then obtain a b where "c # cs = (c # a) @ p @ b" by auto
      then show ?thesis by blast
    qed
  qed
  with Cons show ?case
    by (simp only: str_includes.simps startsWith_iff)
qed

lemma includes_nonempty: "str_includes m (p # ps) \<Longrightarrow> m \<noteq> []"
  by (cases m) simp_all

lemma permissionMessage_flagged:
  "\<exists>a b. err_message (new_Error permissionMessage) = a @ ''Permission denied'' @ b"
  unfolding str_includes_iff [symmetric] by (simp add: new_Error_def permissionMessage_def)

lemma timeout_unflagged:
  "\<not> (\<exists>a b. err_message timeout_error = a @ ''Permission denied'' @ b)"
  "\<not> (\<exists>a b. err_message timeout_error = a @ ''access denied'' @ b)"
  unfolding str_includes_iff [symmetric] by (simp_all add: timeout_error_def)

subsection \<open>State changes of the primitives\<close>

lemma idleCap_eq: "idleCap = connectionLimit dbConfig"
  by (simp add: idleCap_def dbConfig_def)

lemma try_end_eq: "try_end c s = s\<lparr>ended := ended s @ [c]\<rparr>"
  by (simp add: try_end_def conn_end_def split: option.splits)

lemma pop_snoc: "activeConnections s = xs @ [x] \<Longrightarrow> pop s = (x, s\<lparr>activeConnections := xs\<rparr>)"
  by (cases xs) (simp_all add: pop_def)

lemma getAuthToken_state: "snd (getAuthToken e s) = s\<lparr>tokenFetches := tokenFetches s + 1\<rparr>"
  by (simp add: getAuthToken_def Let_def split: sum.splits)

lemma getConnection_state: "snd (getConnection e s) = s\<lparr>tokenFetches := tokenFetches s + 1\<rparr>"
proof -
  obtain r s1 where g: "getAuthToken e s = (r, s1)"
    by (cases "getAuthToken e s")
  with getAuthToken_state [of e s] have "s1 = s\<lparr>tokenFetches := tokenFetches s + 1\<rparr>"
    by simp
  with g show ?thesis
    by (simp add: getConnection_def split: sum.splits)
qed

lemma getConnection_ok: "getConnection env_ok s = (Inr 9, s\<lparr>tokenFetches := tokenFetches s + 1\<rparr>)"
  by (simp add: getConnection_def getAuthToken_def env_ok_def)

lemma getConnection_denied:
  "getConnection env_denied s =
     (Inl (new_Error permissionMessage), s\<lparr>tokenFetches := tokenFetches s + 1\<rparr>)"
  by (simp add: getConnection_def getAuthToken_def getConnection_catch_def env_denied_def
      env_ok_def denied_error_def new_Error_def permissionMessage_def)

lemma wrap_snd:
  "snd (case p of (Inl err, s1) \<Rightarrow> (Inl err, s1) | (Inr c, s1) \<Rightarrow> (Inr (Conn c), s1)) = snd p"
  by (auto split: prod.splits sum.splits)

lemma scan_split:
  assumes "\<forall>x \<in> set ys. P x" and "\<not> P v"
  shows "takeWhile P (rev ys @ v # zs) = rev ys" and "dropWhile P (rev ys @ v # zs) = v # zs"
proof -
  have "takeWhile P (rev ys @ v # zs) = rev ys @ takeWhile P (v # zs)"
    using assms(1) by (intro takeWhile_append2) simp
  then show "takeWhile P (rev ys @ v # zs) = rev ys" using assms(2) by simp
  have "dropWhile P (rev ys @ v # zs) = dropWhile P (v # zs)"
    using assms(1) by (intro dropWhile_append2) simp
  then show "dropWhile P (rev ys @ v # zs) = v # zs" using assms(2) by simp
qed

subsection \<open>The recursion and its closed form agree\<close>

lemma getPoolConnection_closed: "getPoolConnection e s = acquire_closed e s"
proof (induction e s rule: getPoolConnection.induct)
  case (1 e s)
  show ?case
  proof (cases "activeConnections s" rule: rev_cases)
    case Nil
    then have same: "s\<lparr>activeConnections := []\<rparr> = s"
      by (cases s) simp
    from Nil show ?thesis
      by (subst getPoolConnection.simps) (simp add: acquire_closed_def, simp only: same)
  next
    case (snoc xs x)
    note p = pop_snoc [OF snoc]
    show ?thesis
    proof (cases x)
      case Undefined
      with snoc p show ?thesis
        by (subst getPoolConnection.simps) (simp add: acquire_closed_def)
    next
      case Null
      with snoc p show ?thesis
        by (subst getPoolConnection.simps) (simp add: acquire_closed_def)
    next
      case (Conn c)
      show ?thesis
      proof (cases "c \<in> live s")
        case True
        with Conn snoc p show ?thesis
          by (subst getPoolConnection.simps) (simp add: acquire_closed_def isValid_def)
      next
        case False
        let ?s2 = "s\<lparr>activeConnections := xs, validChecks := validChecks s @ [c]\<rparr>"
        have v: "isValid c (s\<lparr>activeConnections := xs\<rparr>) = (False, ?s2)"
          using False by (simp add: isValid_def)
        have ih: "getPoolConnection e (try_end c ?s2) = acquire_closed e (try_end c ?s2)"
          using snoc
          by (intro "1.IH" [OF _ p [symmetric] Conn v [symmetric]]) simp_all
        have "getPoolConnection e s = getPoolConnection e (try_end c ?s2)"
          using snoc Conn p v by (subst getPoolConnection.simps) simp
        also note ih
        also have "acquire_closed e (try_end c ?s2) = acquire_closed e s"
        proof (cases "dropWhile (dead (live s)) (rev xs)")
          case Nil
          with snoc Conn False show ?thesis
            by (simp add: acquire_closed_def try_end_eq Let_def del: dropWhile_eq_Nil_conv)
        next
          case (Cons v vs)
          with snoc Conn False show ?thesis
            by (simp add: acquire_closed_def try_end_eq Let_def del: dropWhile_eq_Nil_conv)
        qed
        finally show ?thesis .
      qed
    qed
  qed
qed

lemma acquire_closed_pool:
  "activeConnections (snd (acquire_closed e s)) =
     rev (drop 1 (dropWhile (dead (live s)) (rev (activeConnections s))))"
proof (cases "dropWhile (dead (live s)) (rev (activeConnections s))")
  case Nil
  then show ?thesis
    by (simp add: acquire_closed_def Let_def wrap_snd getConnection_state
        del: dropWhile_eq_Nil_conv)
next
  case (Cons v vs)
  then show ?thesis
    by (simp add: acquire_closed_def Let_def del: dropWhile_eq_Nil_conv)
qed

lemma getPoolConnection_length:
  "length (activeConnections (snd (getPoolConnection e s))) \<le> length (activeConnections s)"
proof -
  have "length (dropWhile (dead (live s)) (rev (activeConnections s)))
      \<le> length (rev (activeConnections s))"
    by (rule length_dropWhile_le)
  then show ?thesis
    by (simp add: getPoolConnection_closed acquire_closed_pool)
qed

lemma getPoolConnection_subset:
  "set (activeConnections (snd (getPoolConnection e s))) \<subseteq> set (activeConnections s)"
proof -
  have "set (drop 1 (dropWhile (dead (live s)) (rev (activeConnections s))))
      \<subseteq> set (dropWhile (dead (live s)) (rev (activeConnections s)))"
    by (rule set_drop_subset)
  also have "\<dots> \<subseteq> set (rev (activeConnections s))"
    by (auto dest: set_dropWhileD)
  finally show ?thesis
    by (simp add: getPoolConnection_closed acquire_closed_pool)
qed

text \<open>
  The sibling path: a dead connection met by \<open>getPoolConnection\<close> is ended before it is
  dropped.
\<close>

lemma acquire_ends_dead_connection:
  "getPoolConnection env_ok ((initial {} (\<lambda>c. None))\<lparr>activeConnections := [Conn 1]\<rparr>) =
     (Inr (Conn 9),
      (initial {} (\<lambda>c. None))\<lparr>tokenFetches := 1, validChecks := [1], ended := [1]\<rparr>)"
  by (simp add: getPoolConnection_closed acquire_closed_def env_ok_def initial_def
      getConnection_def getAuthToken_def)

subsection \<open>Invariants of a run\<close>

lemma releaseConnection_length:
  "length (activeConnections s) \<le> idleCap \<Longrightarrow>
   length (activeConnections (snd (releaseConnection v s))) \<le> idleCap"
  by (cases v) (auto simp: releaseConnection_def isValid_def try_end_eq)

lemma step_bound:
  "length (activeConnections s) \<le> idleCap \<Longrightarrow>
   length (activeConnections (step ev s)) \<le> idleCap"
proof (cases ev)
  case (Acquire e)
  assume "length (activeConnections s) \<le> idleCap"
  with getPoolConnection_length [of e s] Acquire show ?thesis by simp
next
  case (Release v)
  assume "length (activeConnections s) \<le> idleCap"
  with releaseConnection_length [of s v] Release show ?thesis by simp
next
  case (WorldChange L E)
  assume "length (activeConnections s) \<le> idleCap"
  with WorldChange show ?thesis by simp
qed

lemma run_bound:
  "length (activeConnections s) \<le> idleCap \<Longrightarrow>
   length (activeConnections (run evs s)) \<le> idleCap"
  by (induction evs arbitrary: s) (simp_all add: step_bound)

lemma releaseConnection_truthy:
  "\<forall>x \<in> set (activeConnections s). truthy x \<Longrightarrow>
   \<forall>x \<in> set (activeConnections (snd (releaseConnection v s))). truthy x"
  by (cases v) (auto simp: releaseConnection_def isValid_def try_end_eq)

lemma step_truthy:
  "\<forall>x \<in> set (activeConnections s). truthy x \<Longrightarrow>
   \<forall>x \<in> set (activeConnections (step ev s)). truthy x"
proof (cases ev)
  case (Acquire e)
  assume "\<forall>x \<in> set (activeConnections s). truthy x"
  with getPoolConnection_subset [of e s] Acquire show ?thesis by auto
next
  case (Release v)
  assume "\<forall>x \<in> set (activeConnections s). truthy x"
  with releaseConnection_truthy [of s v] Release show ?thesis by simp
next
  case (WorldChange L E)
  assume "\<forall>x \<in> set (activeConnections s). truthy x"
  with WorldChange show ?thesis by simp
qed

lemma run_truthy:
  "\<forall>x \<in> set (activeConnections s). truthy x \<Longrightarrow>
   \<forall>x \<in> set (activeConnections (run evs s)). truthy x"
proof (induction evs arbitrary: s)
  case Nil
  then show ?case by simp
next
  case (Cons ev evs)
  from Cons.prems have "\<forall>x \<in> set (activeConnections (step ev s)). truthy x"
    by (rule step_truthy)
  then have "\<forall>x \<in> set (activeConnections (run evs (step ev s))). truthy x"
    by (rule Cons.IH)
  then show ?case by simp
qed

text \<open>
  Only \<open>releaseConnection\<close> pushes, and it pushes connections only: a pool grown from the
  empty one holds no \<^verbatim>\<open>null\<close> and no \<^verbatim>\<open>undefined\<close>.
\<close>

lemma reachable_pool_holds_connections:
  "activeConnections s = [] \<Longrightarrow> \<forall>x \<in> set (activeConnections (run evs s)). truthy x"
  by (rule run_truthy) simp

subsection \<open>State changes and replies of the handlers\<close>

lemma health_state:
  "snd (health e s) =
     (case fst (getConnection e s) of
        Inl err \<Rightarrow> s\<lparr>tokenFetches := tokenFetches s + 1\<rparr>
      | Inr c \<Rightarrow> s\<lparr>tokenFetches := tokenFetches s + 1, ended := ended s @ [c]\<rparr>)"
proof -
  obtain r s1 where g: "getConnection e s = (r, s1)"
    by (cases "getConnection e s")
  with getConnection_state [of e s] have "s1 = s\<lparr>tokenFetches := tokenFetches s + 1\<rparr>"
    by simp
  with g show ?thesis
    by (simp add: health_def try_end_eq Let_def split: sum.splits option.splits)
qed

lemma students_state:
  "snd (students e s) =
     (case fst (getConnection e s) of
        Inl err \<Rightarrow> s\<lparr>tokenFetches := tokenFetches s + 1\<rparr>
      | Inr c \<Rightarrow> s\<lparr>tokenFetches := tokenFetches s + 1, ended := ended s @ [c]\<rparr>)"
proof -
  obtain r s1 where g: "getConnection e s = (r, s1)"
    by (cases "getConnection e s")
  with getConnection_state [of e s] have "s1 = s\<lparr>tokenFetches := tokenFetches s + 1\<rparr>"
    by simp
  with g show ?thesis
    by (simp add: students_def try_end_eq split: sum.splits)
qed

lemma health_reply:
  "fst (health e s) =
     (case health_caught e s of
        None \<Rightarrow> \<lparr>res_status = 200, res_body = Text ''I am OK. Database connection successful.''\<rparr>
      | Some err \<Rightarrow> health_catch err)"
  by (simp add: health_def health_caught_def Let_def split: prod.splits sum.splits option.splits)

lemma students_reply:
  "fst (students e s) =
     (case fst (getConnection e s) of
        Inl err \<Rightarrow> students_catch err
      | Inr c \<Rightarrow>
          (case query e c ''SELECT id, name, email FROM students'' of
             Inl err \<Rightarrow> students_catch err
           | Inr rows \<Rightarrow>
               (case res_send_rows rows of
                  Inl err \<Rightarrow> students_catch err
                | Inr res \<Rightarrow> res)))"
  by (simp add: students_def split: prod.splits sum.splits)

lemma bigint_error_reply:
  "students_catch bigint_error =
     \<lparr>res_status = 500, res_body = ErrorBody ''Failed to retrieve student data.''\<rparr>"
  by (simp add: students_catch_def bigint_error_def)

lemma students_catch_cases:
  "students_catch err =
     (if err_message err \<noteq> [] \<and>
         ((\<exists>a b. err_message err = a @ ''Permission denied'' @ b) \<or>
          (\<exists>a b. err_message err = a @ ''access denied'' @ b) \<or>
          err_code err = Some ''ER_ACCESS_DENIED_ERROR'')
      then \<lparr>res_status = 403,
            res_body = ErrorBody
              ''Permission denied: EC2 instance doesn't have appropriate IAM role for RDS access''\<rparr>
      else \<lparr>res_status = 500, res_body = ErrorBody ''Failed to retrieve student data.''\<rparr>)"
  unfolding str_includes_iff [symmetric]
  by (simp only: students_catch_def permissionMessage_def)

section \<open>The claims\<close>

subsection \<open>C1: the idle pool stays within the cap\<close>

text \<open>
  Claim C1. For every sequence of \<^verbatim>\<open>getPoolConnection\<close> and \<^verbatim>\<open>releaseConnection\<close> calls that
  starts from an empty idle pool, whatever the environment answers and however liveness
  changes in between, the length of \<^verbatim>\<open>activeConnections\<close> never exceeds
  \<^verbatim>\<open>dbConfig.connectionLimit\<close>, which is 5.
\<close>

theorem idle_pool_bounded:
  "activeConnections s = [] \<Longrightarrow>
   length (activeConnections (run evs s)) \<le> connectionLimit dbConfig"
  using run_bound [of s evs] by (simp add: idleCap_eq)

theorem idle_pool_bounded_witness:
  "activeConnections (initial {1, 2, 3, 4, 5, 6} (\<lambda>c. None)) = [] \<and>
   length (activeConnections
     (run [Release (Conn 1), Release (Conn 2), Release (Conn 3), Release (Conn 4),
           Release (Conn 5), Release (Conn 6), Acquire env_ok, Release (Conn 6)]
        (initial {1, 2, 3, 4, 5, 6} (\<lambda>c. None))))
     \<le> connectionLimit dbConfig"
proof -
  have empty: "activeConnections (initial {1, 2, 3, 4, 5, 6} (\<lambda>c. None)) = []"
    by (simp add: initial_def)
  show ?thesis
    by (rule conjI [OF empty idle_pool_bounded [OF empty]])
qed

subsection \<open>C2: releasing a connection that is not live\<close>

text \<open>
  Claim C2 says that \<^verbatim>\<open>releaseConnection\<close>, given a connection whose \<^verbatim>\<open>isValid()\<close> is false,
  calls its \<^verbatim>\<open>end()\<close> and does not retain it. The code does not retain it, but it never
  calls \<^verbatim>\<open>end()\<close>: the body of \<^verbatim>\<open>if (conn && conn.isValid())\<close> has no \<^verbatim>\<open>else\<close>. Releasing
  connection 1, not live, into the empty pool leaves the log of \<^verbatim>\<open>end()\<close> calls empty.
\<close>

theorem release_leaves_dead_connection_open:
  "releaseConnection (Conn 1) (initial {} (\<lambda>c. None)) =
     (Inr (), (initial {} (\<lambda>c. None))\<lparr>validChecks := [1]\<rparr>) \<and>
   ended (snd (releaseConnection (Conn 1) (initial {} (\<lambda>c. None)))) = [] \<and>
   activeConnections (snd (releaseConnection (Conn 1) (initial {} (\<lambda>c. None)))) = []"
  by (simp add: releaseConnection_def isValid_def initial_def)

subsection \<open>C3: the handlers leave the idle pool alone\<close>

text \<open>
  Claim C3. A request to \<^verbatim>\<open>/health\<close> or \<^verbatim>\<open>/students\<close> leaves \<^verbatim>\<open>activeConnections\<close> unchanged and
  makes no liveness check; it calls \<^verbatim>\<open>getAuthToken\<close> exactly once (through
  \<^verbatim>\<open>getConnection\<close>), and the connection it obtained, if any, is disposed of by \<^verbatim>\<open>end()\<close>.
\<close>

theorem handlers_bypass_pool:
  "activeConnections (snd (health e s)) = activeConnections s \<and>
   activeConnections (snd (students e s)) = activeConnections s \<and>
   validChecks (snd (health e s)) = validChecks s \<and>
   validChecks (snd (students e s)) = validChecks s \<and>
   tokenFetches (snd (health e s)) = tokenFetches s + 1 \<and>
   tokenFetches (snd (students e s)) = tokenFetches s + 1 \<and>
   ended (snd (health e s)) =
     ended s @ (case fst (getConnection e s) of Inl err \<Rightarrow> [] | Inr c \<Rightarrow> [c]) \<and>
   ended (snd (students e s)) =
     ended s @ (case fst (getConnection e s) of Inl err \<Rightarrow> [] | Inr c \<Rightarrow> [c])"
  by (simp add: health_state students_state split: sum.splits)

subsection \<open>C4: a released live connection is reused without a token\<close>

text \<open>
  Claim C4. Let connection \<open>c\<close> be released while \<^verbatim>\<open>isValid()\<close> is true and the idle pool is
  under the cap. If \<open>c\<close> is still live at the next \<^verbatim>\<open>getPoolConnection\<close> (the liveness of
  the others and the behaviour of \<^verbatim>\<open>end()\<close> may have changed), that call returns \<open>c\<close>, the
  number of \<^verbatim>\<open>getAuthToken\<close> calls is what it was before the release, and the pool is back to
  what it was.
\<close>

theorem release_then_acquire_reuses:
  assumes "c \<in> live s"
    and "length (activeConnections s) < connectionLimit dbConfig"
    and "c \<in> L"
  shows "fst (getPoolConnection e
             ((snd (releaseConnection (Conn c) s))\<lparr>live := L, endThrows := E\<rparr>))
           = Inr (Conn c) \<and>
         tokenFetches (snd (getPoolConnection e
             ((snd (releaseConnection (Conn c) s))\<lparr>live := L, endThrows := E\<rparr>)))
           = tokenFetches s \<and>
         activeConnections (snd (getPoolConnection e
             ((snd (releaseConnection (Conn c) s))\<lparr>live := L, endThrows := E\<rparr>)))
           = activeConnections s"
proof -
  have rel: "snd (releaseConnection (Conn c) s) =
      s\<lparr>validChecks := validChecks s @ [c],
        activeConnections := activeConnections s @ [Conn c]\<rparr>"
    using assms(1,2) by (simp add: releaseConnection_def isValid_def idleCap_eq)
  show ?thesis
    using assms(3) by (simp add: rel getPoolConnection_closed acquire_closed_def)
qed

theorem release_then_acquire_reuses_witness:
  "(1::nat) \<in> live (initial {1} (\<lambda>c. None)) \<and>
   length (activeConnections (initial {1} (\<lambda>c. None))) < connectionLimit dbConfig \<and>
   (1::nat) \<in> {1} \<and>
   fst (getPoolConnection env_timeout
         ((snd (releaseConnection (Conn 1) (initial {1} (\<lambda>c. None))))
            \<lparr>live := {1}, endThrows := (\<lambda>c. None)\<rparr>)) = Inr (Conn 1) \<and>
   tokenFetches (snd (getPoolConnection env_timeout
         ((snd (releaseConnection (Conn 1) (initial {1} (\<lambda>c. None))))
            \<lparr>live := {1}, endThrows := (\<lambda>c. None)\<rparr>))) = 0"
  using release_then_acquire_reuses
    [of 1 "initial {1} (\<lambda>c. None)" "{1}" env_timeout "\<lambda>c. None"]
  by (simp add: initial_def dbConfig_def)

subsection \<open>C5: a connection that fails its liveness check is not handed out\<close>

text \<open>
  Claim C5. In every state, \<^verbatim>\<open>getPoolConnection\<close> pops the pool from its top; each
  connection whose \<^verbatim>\<open>isValid()\<close> is false is ended (what \<^verbatim>\<open>end()\<close> throws is dropped) and
  not kept, and the search goes on. It stops at the first entry that is not such a
  connection, which it returns without a token fetch; when the pool runs empty it
  returns what \<^verbatim>\<open>getConnection\<close> returns. So a value handed out of the pool (no token was
  fetched) is never a connection that failed the check.
\<close>

theorem acquire_skips_dead_connections:
  "getPoolConnection e s = acquire_closed e s \<and>
   (\<forall>v. fst (getPoolConnection e s) = Inr v \<and>
        tokenFetches (snd (getPoolConnection e s)) = tokenFetches s \<longrightarrow>
        \<not> dead (live s) v)"
proof (intro conjI allI impI)
  show "getPoolConnection e s = acquire_closed e s"
    by (rule getPoolConnection_closed)
next
  fix v
  assume a: "fst (getPoolConnection e s) = Inr v \<and>
    tokenFetches (snd (getPoolConnection e s)) = tokenFetches s"
  show "\<not> dead (live s) v"
  proof (cases "dropWhile (dead (live s)) (rev (activeConnections s))")
    case Nil
    then have "tokenFetches (snd (acquire_closed e s)) = tokenFetches s + 1"
      by (simp add: acquire_closed_def Let_def wrap_snd getConnection_state
          del: dropWhile_eq_Nil_conv)
    with a show ?thesis
      by (simp add: getPoolConnection_closed)
  next
    case (Cons x xs)
    then have "fst (acquire_closed e s) = Inr x"
      by (simp add: acquire_closed_def Let_def del: dropWhile_eq_Nil_conv)
    with a have "x = v"
      by (simp add: getPoolConnection_closed)
    moreover have "\<not> dead (live s) x"
      using Cons hd_dropWhile [of "dead (live s)" "rev (activeConnections s)"]
      by (simp del: dropWhile_eq_Nil_conv)
    ultimately show ?thesis
      by simp
  qed
qed

theorem acquire_skips_dead_connections_witness:
  "fst (getPoolConnection env_ok
     ((initial {5} (\<lambda>c. Some timeout_error))\<lparr>activeConnections := [Conn 5, Conn 2, Conn 3]\<rparr>))
     = Inr (Conn 5) \<and>
   tokenFetches (snd (getPoolConnection env_ok
     ((initial {5} (\<lambda>c. Some timeout_error))\<lparr>activeConnections := [Conn 5, Conn 2, Conn 3]\<rparr>)))
     = tokenFetches
         ((initial {5} (\<lambda>c. Some timeout_error))\<lparr>activeConnections := [Conn 5, Conn 2, Conn 3]\<rparr>) \<and>
   \<not> dead (live
     ((initial {5} (\<lambda>c. Some timeout_error))\<lparr>activeConnections := [Conn 5, Conn 2, Conn 3]\<rparr>))
     (Conn 5) \<and>
   getPoolConnection env_ok
     ((initial {5} (\<lambda>c. Some timeout_error))\<lparr>activeConnections := [Conn 5, Conn 2, Conn 3]\<rparr>) =
     (Inr (Conn 5),
      (initial {5} (\<lambda>c. Some timeout_error))\<lparr>validChecks := [3, 2, 5], ended := [3, 2]\<rparr>) \<and>
   getPoolConnection env_ok ((initial {} (\<lambda>c. None))\<lparr>activeConnections := [Conn 2, Conn 3]\<rparr>) =
     (Inr (Conn 9),
      (initial {} (\<lambda>c. None))\<lparr>tokenFetches := 1, validChecks := [3, 2], ended := [3, 2]\<rparr>)"
  using acquire_skips_dead_connections
    [of env_ok
        "(initial {5} (\<lambda>c. Some timeout_error))\<lparr>activeConnections := [Conn 5, Conn 2, Conn 3]\<rparr>"]
    acquire_skips_dead_connections
    [of env_ok "(initial {} (\<lambda>c. None))\<lparr>activeConnections := [Conn 2, Conn 3]\<rparr>"]
  by (simp add: acquire_closed_def initial_def env_ok_def getConnection_def getAuthToken_def)

subsection \<open>C6: classification of token errors\<close>

text \<open>
  Claim C6. When the token call fails with an error whose name is
  \<^verbatim>\<open>CredentialsProviderError\<close> or \<^verbatim>\<open>AccessDenied\<close>, or whose message contains \<^verbatim>\<open>credentials\<close>,
  \<^verbatim>\<open>permission\<close> or \<^verbatim>\<open>access denied\<close> (as a contiguous, case-sensitive substring),
  \<^verbatim>\<open>getAuthToken\<close> throws a new \<^verbatim>\<open>Error\<close> with the fixed permission message; with any other
  error it throws that error unchanged.
\<close>

theorem getAuthToken_classifies_errors:
  assumes "generateAuthenticationToken e = Inl err"
  shows "fst (getAuthToken e s) =
           (if err_name err = ''CredentialsProviderError'' \<or>
               err_name err = ''AccessDenied'' \<or>
               (\<exists>a b. err_message err = a @ ''credentials'' @ b) \<or>
               (\<exists>a b. err_message err = a @ ''permission'' @ b) \<or>
               (\<exists>a b. err_message err = a @ ''access denied'' @ b)
            then Inl \<lparr>err_name = ''Error'',
                      err_message =
                        ''Permission denied: EC2 instance doesn't have appropriate IAM role for RDS access'',
                      err_code = None\<rparr>
            else Inl err)"
  using assms
  by (simp add: getAuthToken_def Let_def str_includes_iff new_Error_def permissionMessage_def)

theorem getAuthToken_classifies_errors_witness:
  "generateAuthenticationToken env_denied = Inl denied_error \<and>
   fst (getAuthToken env_denied (initial {} (\<lambda>c. None))) = Inl (new_Error permissionMessage) \<and>
   generateAuthenticationToken env_denied_text = Inl access_denied_text \<and>
   fst (getAuthToken env_denied_text (initial {} (\<lambda>c. None))) = Inl (new_Error permissionMessage) \<and>
   generateAuthenticationToken env_timeout = Inl timeout_error \<and>
   fst (getAuthToken env_timeout (initial {} (\<lambda>c. None))) = Inl timeout_error"
proof -
  have g1: "generateAuthenticationToken env_denied = Inl denied_error"
    by (simp add: env_denied_def)
  have r1: "fst (getAuthToken env_denied (initial {} (\<lambda>c. None))) = Inl (new_Error permissionMessage)"
    using getAuthToken_classifies_errors [OF g1, of "initial {} (\<lambda>c. None)"]
    by (simp add: denied_error_def new_Error_def permissionMessage_def)
  have g2: "generateAuthenticationToken env_denied_text = Inl access_denied_text"
    by (simp add: env_denied_text_def)
  have c2: "\<exists>a b. err_message access_denied_text = a @ ''access denied'' @ b"
    unfolding str_includes_iff [symmetric] by (simp add: access_denied_text_def)
  have r2: "fst (getAuthToken env_denied_text (initial {} (\<lambda>c. None))) = Inl (new_Error permissionMessage)"
    using getAuthToken_classifies_errors [OF g2, of "initial {} (\<lambda>c. None)"] c2
    by (simp add: new_Error_def permissionMessage_def)
  have g3: "generateAuthenticationToken env_timeout = Inl timeout_error"
    by (simp add: env_timeout_def)
  have n3: "\<not> (\<exists>a b. err_message timeout_error = a @ ''credentials'' @ b)"
    "\<not> (\<exists>a b. err_message timeout_error = a @ ''permission'' @ b)"
    "\<not> (\<exists>a b. err_message timeout_error = a @ ''access denied'' @ b)"
    unfolding str_includes_iff [symmetric] by (simp_all add: timeout_error_def)
  have m3: "err_name timeout_error \<noteq> ''CredentialsProviderError''"
    "err_name timeout_error \<noteq> ''AccessDenied''"
    by (simp_all add: timeout_error_def)
  have r3: "fst (getAuthToken env_timeout (initial {} (\<lambda>c. None))) = Inl timeout_error"
    using getAuthToken_classifies_errors [OF g3, of "initial {} (\<lambda>c. None)"] n3 m3
    by (simp only: if_False simp_thms)
  from g1 r1 g2 r2 g3 r3 show ?thesis
    by blast
qed

subsection \<open>C7: the replies of \<^verbatim>\<open>/health\<close>\<close>

text \<open>
  Claim C7. \<^verbatim>\<open>GET /health\<close> answers 200 with the plain text
  \<^verbatim>\<open>I am OK. Database connection successful.\<close> when \<^verbatim>\<open>getConnection\<close> and \<^verbatim>\<open>ping\<close> succeed.
  When one of them throws an error whose message contains \<^verbatim>\<open>Permission denied\<close>, it answers
  403 with \<^verbatim>\<open>{status: "ERROR", message: <the fixed permission message>}\<close>; on any other
  error it answers 500 with \<^verbatim>\<open>{status: "ERROR", message: "Health check failed: " + err.message}\<close>.
\<close>

theorem health_responses:
  "(health_caught e s = None \<longrightarrow>
      fst (health e s) =
        \<lparr>res_status = 200, res_body = Text ''I am OK. Database connection successful.''\<rparr>) \<and>
   (\<forall>err. health_caught e s = Some err \<and>
       (\<exists>a b. err_message err = a @ ''Permission denied'' @ b) \<longrightarrow>
      fst (health e s) =
        \<lparr>res_status = 403,
         res_body = StatusMessage ''ERROR''
           ''Permission denied: EC2 instance doesn't have appropriate IAM role for RDS access''\<rparr>) \<and>
   (\<forall>err. health_caught e s = Some err \<and>
       \<not> (\<exists>a b. err_message err = a @ ''Permission denied'' @ b) \<longrightarrow>
      fst (health e s) =
        \<lparr>res_status = 500,
         res_body = StatusMessage ''ERROR'' (''Health check failed: '' @ err_message err)\<rparr>)"
proof (intro conjI allI impI)
  assume "health_caught e s = None"
  then show "fst (health e s) =
      \<lparr>res_status = 200, res_body = Text ''I am OK. Database connection successful.''\<rparr>"
    by (simp add: health_reply)
next
  fix err
  assume a: "health_caught e s = Some err \<and>
    (\<exists>a b. err_message err = a @ ''Permission denied'' @ b)"
  then have inc: "str_includes (err_message err) ''Permission denied''"
    by (simp only: str_includes_iff)
  then have "err_message err \<noteq> []"
    by (rule includes_nonempty)
  with a inc show "fst (health e s) =
      \<lparr>res_status = 403,
       res_body = StatusMessage ''ERROR''
         ''Permission denied: EC2 instance doesn't have appropriate IAM role for RDS access''\<rparr>"
    by (simp add: health_reply health_catch_def permissionMessage_def)
next
  fix err
  assume a: "health_caught e s = Some err \<and>
    \<not> (\<exists>a b. err_message err = a @ ''Permission denied'' @ b)"
  then have "\<not> str_includes (err_message err) ''Permission denied''"
    by (simp only: str_includes_iff) simp
  with a show "fst (health e s) =
      \<lparr>res_status = 500,
       res_body = StatusMessage ''ERROR'' (''Health check failed: '' @ err_message err)\<rparr>"
    by (simp add: health_reply health_catch_def)
qed

theorem health_responses_witness:
  "health_caught env_ok (initial {} (\<lambda>c. None)) = None \<and>
   fst (health env_ok (initial {} (\<lambda>c. None))) =
     \<lparr>res_status = 200, res_body = Text ''I am OK. Database connection successful.''\<rparr> \<and>
   health_caught env_denied (initial {} (\<lambda>c. None)) = Some (new_Error permissionMessage) \<and>
   fst (health env_denied (initial {} (\<lambda>c. None))) =
     \<lparr>res_status = 403, res_body = StatusMessage ''ERROR'' permissionMessage\<rparr> \<and>
   health_caught env_ping_fails (initial {} (\<lambda>c. None)) = Some timeout_error \<and>
   fst (health env_ping_fails (initial {} (\<lambda>c. None))) =
     \<lparr>res_status = 500,
      res_body = StatusMessage ''ERROR'' ''Health check failed: socket hang up''\<rparr>"
proof -
  let ?s = "initial {} (\<lambda>c. None)"
  have c1: "health_caught env_ok ?s = None"
    by (simp add: health_caught_def getConnection_ok) (simp add: env_ok_def)
  have c2: "health_caught env_denied ?s = Some (new_Error permissionMessage)"
    by (simp add: health_caught_def getConnection_denied)
  have c3: "health_caught env_ping_fails ?s = Some timeout_error"
    by (simp add: health_caught_def getConnection_def getAuthToken_def env_ping_fails_def
        env_ok_def)
  note h1 = health_responses [of env_ok ?s]
  note h2 = health_responses [of env_denied ?s]
  note h3 = health_responses [of env_ping_fails ?s]
  have r1: "fst (health env_ok ?s) =
     \<lparr>res_status = 200, res_body = Text ''I am OK. Database connection successful.''\<rparr>"
    using h1 c1 by blast
  have r2: "fst (health env_denied ?s) =
     \<lparr>res_status = 403, res_body = StatusMessage ''ERROR'' permissionMessage\<rparr>"
    using h2 c2 permissionMessage_flagged unfolding permissionMessage_def by blast
  have "fst (health env_ping_fails ?s) =
     \<lparr>res_status = 500,
      res_body = StatusMessage ''ERROR'' (''Health check failed: '' @ err_message timeout_error)\<rparr>"
    using h3 c3 timeout_unflagged(1) by blast
  then have r3: "fst (health env_ping_fails ?s) =
     \<lparr>res_status = 500,
      res_body = StatusMessage ''ERROR'' ''Health check failed: socket hang up''\<rparr>"
    by (simp add: timeout_error_def)
  from c1 r1 c2 r2 c3 r3 show ?thesis
    by blast
qed

subsection \<open>C8: the replies of \<^verbatim>\<open>/students\<close>\<close>

text \<open>
  Claim C8. \<^verbatim>\<open>GET /students\<close> answers 200 with the rows of the fixed query when nothing in
  its \<^verbatim>\<open>try\<close> block throws: \<^verbatim>\<open>getConnection\<close> and the query succeed and \<^verbatim>\<open>res.send(rows)\<close> can
  serialise the rows. When an error is thrown there that the handler takes for a
  permission failure (a non-empty message, and the message contains \<^verbatim>\<open>Permission denied\<close>
  or \<^verbatim>\<open>access denied\<close>, or the code is \<^verbatim>\<open>ER_ACCESS_DENIED_ERROR\<close>), it answers 403 with
  \<^verbatim>\<open>{error: <the fixed permission message>}\<close>; on every other error it answers 500 with the
  fixed body \<^verbatim>\<open>{error: "Failed to retrieve student data."}\<close>, which holds nothing of the
  error caught. Rows that cannot be serialised (a \<^verbatim>\<open>BigInt\<close> id) are such another error:
  the answer is 500 with the fixed body. Whenever a connection was obtained, \<^verbatim>\<open>end()\<close> is
  called on it, also when the query or the sending fails.
\<close>

theorem students_responses:
  "(\<forall>c rows. fst (getConnection e s) = Inr c \<and>
       query e c ''SELECT id, name, email FROM students'' = Inr rows \<and>
       serializable rows \<longrightarrow>
      students_caught e s = None \<and>
      fst (students e s) = \<lparr>res_status = 200, res_body = Rows rows\<rparr>) \<and>
   (\<forall>err. students_caught e s = Some err \<and>
       err_message err \<noteq> [] \<and>
       ((\<exists>a b. err_message err = a @ ''Permission denied'' @ b) \<or>
        (\<exists>a b. err_message err = a @ ''access denied'' @ b) \<or>
        err_code err = Some ''ER_ACCESS_DENIED_ERROR'') \<longrightarrow>
      fst (students e s) =
        \<lparr>res_status = 403,
         res_body = ErrorBody
           ''Permission denied: EC2 instance doesn't have appropriate IAM role for RDS access''\<rparr>) \<and>
   (\<forall>err. students_caught e s = Some err \<and>
       \<not> (err_message err \<noteq> [] \<and>
          ((\<exists>a b. err_message err = a @ ''Permission denied'' @ b) \<or>
           (\<exists>a b. err_message err = a @ ''access denied'' @ b) \<or>
           err_code err = Some ''ER_ACCESS_DENIED_ERROR'')) \<longrightarrow>
      fst (students e s) =
        \<lparr>res_status = 500, res_body = ErrorBody ''Failed to retrieve student data.''\<rparr>) \<and>
   (\<forall>c rows. fst (getConnection e s) = Inr c \<and>
       query e c ''SELECT id, name, email FROM students'' = Inr rows \<and>
       \<not> serializable rows \<longrightarrow>
      students_caught e s = Some bigint_error \<and>
      fst (students e s) =
        \<lparr>res_status = 500, res_body = ErrorBody ''Failed to retrieve student data.''\<rparr>) \<and>
   (\<forall>c. fst (getConnection e s) = Inr c \<longrightarrow> ended (snd (students e s)) = ended s @ [c])"
proof (intro conjI allI impI)
  fix c rows
  assume a: "fst (getConnection e s) = Inr c \<and>
    query e c ''SELECT id, name, email FROM students'' = Inr rows \<and> serializable rows"
  then show "students_caught e s = None"
    by (simp add: students_caught_def res_send_rows_def)
  from a show "fst (students e s) = \<lparr>res_status = 200, res_body = Rows rows\<rparr>"
    by (simp add: students_reply res_send_rows_def)
next
  fix err
  assume a: "students_caught e s = Some err \<and>
       err_message err \<noteq> [] \<and>
       ((\<exists>a b. err_message err = a @ ''Permission denied'' @ b) \<or>
        (\<exists>a b. err_message err = a @ ''access denied'' @ b) \<or>
        err_code err = Some ''ER_ACCESS_DENIED_ERROR'')"
  then have "fst (students e s) = students_catch err"
    by (auto simp: students_reply students_caught_def split: sum.splits)
  with a show "fst (students e s) =
        \<lparr>res_status = 403,
         res_body = ErrorBody
           ''Permission denied: EC2 instance doesn't have appropriate IAM role for RDS access''\<rparr>"
    by (simp only: students_catch_cases if_True simp_thms)
next
  fix err
  assume a: "students_caught e s = Some err \<and>
       \<not> (err_message err \<noteq> [] \<and>
          ((\<exists>a b. err_message err = a @ ''Permission denied'' @ b) \<or>
           (\<exists>a b. err_message err = a @ ''access denied'' @ b) \<or>
           err_code err = Some ''ER_ACCESS_DENIED_ERROR''))"
  then have "fst (students e s) = students_catch err"
    by (auto simp: students_reply students_caught_def split: sum.splits)
  with a show "fst (students e s) =
        \<lparr>res_status = 500, res_body = ErrorBody ''Failed to retrieve student data.''\<rparr>"
    by (simp only: students_catch_cases if_False simp_thms)
next
  fix c rows
  assume a: "fst (getConnection e s) = Inr c \<and>
    query e c ''SELECT id, name, email FROM students'' = Inr rows \<and> \<not> serializable rows"
  then show "students_caught e s = Some bigint_error"
    by (simp add: students_caught_def res_send_rows_def)
  from a show "fst (students e s) =
        \<lparr>res_status = 500, res_body = ErrorBody ''Failed to retrieve student data.''\<rparr>"
    by (simp add: students_reply res_send_rows_def bigint_error_reply)
next
  fix c
  assume "fst (getConnection e s) = Inr c"
  then show "ended (snd (students e s)) = ended s @ [c]"
    by (simp add: students_state)
qed

theorem students_responses_witness:
  "fst (getConnection env_ok (initial {} (\<lambda>c. None))) = Inr 9 \<and>
   query env_ok 9 ''SELECT id, name, email FROM students'' = Inr sample_rows \<and>
   serializable sample_rows \<and>
   fst (students env_ok (initial {} (\<lambda>c. None))) =
     \<lparr>res_status = 200, res_body = Rows sample_rows\<rparr> \<and>
   ended (snd (students env_ok (initial {} (\<lambda>c. None)))) = [9] \<and>
   students_caught env_denied (initial {} (\<lambda>c. None)) = Some (new_Error permissionMessage) \<and>
   fst (students env_denied (initial {} (\<lambda>c. None))) =
     \<lparr>res_status = 403, res_body = ErrorBody permissionMessage\<rparr> \<and>
   students_caught env_query_fails (initial {} (\<lambda>c. None)) = Some timeout_error \<and>
   fst (students env_query_fails (initial {} (\<lambda>c. None))) =
     \<lparr>res_status = 500, res_body = ErrorBody ''Failed to retrieve student data.''\<rparr> \<and>
   ended (snd (students env_query_fails (initial {} (\<lambda>c. None)))) = [9] \<and>
   fst (getConnection env_bigint (initial {} (\<lambda>c. None))) = Inr 9 \<and>
   query env_bigint 9 ''SELECT id, name, email FROM students'' = Inr bigint_rows \<and>
   \<not> serializable bigint_rows \<and>
   fst (students env_bigint (initial {} (\<lambda>c. None))) =
     \<lparr>res_status = 500, res_body = ErrorBody ''Failed to retrieve student data.''\<rparr> \<and>
   ended (snd (students env_bigint (initial {} (\<lambda>c. None)))) = [9]"
proof -
  let ?s = "initial {} (\<lambda>c. None)"
  let ?q = "''SELECT id, name, email FROM students''"
  have g1: "fst (getConnection env_ok ?s) = Inr 9"
    by (simp add: getConnection_ok)
  have q1: "query env_ok 9 ?q = Inr sample_rows"
    by (simp add: env_ok_def)
  have s1: "serializable sample_rows"
    by (simp add: serializable_def sample_rows_def)
  have g3: "fst (getConnection env_query_fails ?s) = Inr 9"
    by (simp add: getConnection_def getAuthToken_def env_query_fails_def env_ok_def)
  have g4: "fst (getConnection env_bigint ?s) = Inr 9"
    by (simp add: getConnection_def getAuthToken_def env_bigint_def env_ok_def)
  have q4: "query env_bigint 9 ?q = Inr bigint_rows"
    by (simp add: env_bigint_def)
  have s4: "\<not> serializable bigint_rows"
    by (simp add: serializable_def bigint_rows_def)
  have c2: "students_caught env_denied ?s = Some (new_Error permissionMessage)"
    by (simp add: students_caught_def getConnection_denied)
  have f2: "err_message (new_Error permissionMessage) \<noteq> []"
    by (simp add: new_Error_def permissionMessage_def)
  have c3: "students_caught env_query_fails ?s = Some timeout_error"
    by (simp add: students_caught_def g3) (simp add: env_query_fails_def)
  have e0: "ended ?s = []"
    by (simp add: initial_def)
  note t1 = students_responses [of env_ok ?s]
  note t2 = students_responses [of env_denied ?s]
  note t3 = students_responses [of env_query_fails ?s]
  note t4 = students_responses [of env_bigint ?s]
  have r1: "fst (students env_ok ?s) = \<lparr>res_status = 200, res_body = Rows sample_rows\<rparr>"
    using t1 g1 q1 s1 by blast
  have "ended (snd (students env_ok ?s)) = ended ?s @ [9]"
    using t1 g1 by blast
  then have d1: "ended (snd (students env_ok ?s)) = [9]"
    by (simp add: e0)
  have r2: "fst (students env_denied ?s) =
      \<lparr>res_status = 403, res_body = ErrorBody permissionMessage\<rparr>"
    using t2 c2 f2 permissionMessage_flagged unfolding permissionMessage_def by blast
  have n3: "err_code timeout_error \<noteq> Some ''ER_ACCESS_DENIED_ERROR''"
    by (simp add: timeout_error_def)
  have r3: "fst (students env_query_fails ?s) =
      \<lparr>res_status = 500, res_body = ErrorBody ''Failed to retrieve student data.''\<rparr>"
    using t3 c3 timeout_unflagged n3 by blast
  have "ended (snd (students env_query_fails ?s)) = ended ?s @ [9]"
    using t3 g3 by blast
  then have d3: "ended (snd (students env_query_fails ?s)) = [9]"
    by (simp add: e0)
  have r4: "fst (students env_bigint ?s) =
      \<lparr>res_status = 500, res_body = ErrorBody ''Failed to retrieve student data.''\<rparr>"
    using t4 g4 q4 s4 by blast
  have "ended (snd (students env_bigint ?s)) = ended ?s @ [9]"
    using t4 g4 by blast
  then have d4: "ended (snd (students env_bigint ?s)) = [9]"
    by (simp add: e0)
  from g1 q1 s1 r1 d1 c2 r2 c3 r3 d3 g4 q4 s4 r4 d4 show ?thesis
    by blast
qed

subsection \<open>C9: releasing a connection that is not live is silent\<close>

text \<open>
  Claim C9. For a connection whose \<^verbatim>\<open>isValid()\<close> is false, \<^verbatim>\<open>releaseConnection\<close> returns
  normally and leaves the idle pool as it was, so its length is the same before and
  after.
\<close>

theorem release_of_dead_connection_is_silent:
  "c \<notin> live s \<Longrightarrow>
   fst (releaseConnection (Conn c) s) = Inr () \<and>
   activeConnections (snd (releaseConnection (Conn c) s)) = activeConnections s \<and>
   length (activeConnections (snd (releaseConnection (Conn c) s)))
     = length (activeConnections s)"
  by (simp add: releaseConnection_def isValid_def)

theorem release_of_dead_connection_is_silent_witness:
  "(1::nat) \<notin> live (initial {} (\<lambda>c. Some timeout_error)) \<and>
   fst (releaseConnection (Conn 1) (initial {} (\<lambda>c. Some timeout_error))) = Inr () \<and>
   length (activeConnections
       (snd (releaseConnection (Conn 1) (initial {} (\<lambda>c. Some timeout_error)))))
     = length (activeConnections (initial {} (\<lambda>c. Some timeout_error)))"
  using release_of_dead_connection_is_silent [of 1 "initial {} (\<lambda>c. Some timeout_error)"]
  by (simp add: initial_def)

subsection \<open>C10: a falsy pool entry is handed out as it is\<close>

text \<open>
  Claim C10. When the entry that \<^verbatim>\<open>getPoolConnection\<close> reaches in the idle pool (the top one,
  or the one under dead connections only) is \<^verbatim>\<open>null\<close> or \<^verbatim>\<open>undefined\<close>, the call pops it and
  returns it: no liveness check is made on it, no token is fetched, no connection is
  created. The checks and \<^verbatim>\<open>end()\<close> calls logged are those of the dead connections above it.
\<close>

theorem acquire_returns_falsy_entry:
  assumes "activeConnections s = pre @ v # stale"
    and "\<not> truthy v"
    and "\<forall>x \<in> set stale. dead (live s) x"
  shows "getPoolConnection e s =
           (Inr v, s\<lparr>activeConnections := pre,
                      validChecks := validChecks s @ conn_ids (rev stale),
                      ended := ended s @ conn_ids (rev stale)\<rparr>)"
proof -
  have nd: "\<not> dead (live s) v"
    using assms(2) by (cases v) simp_all
  have vs: "conn_ids [v] = []"
    using assms(2) by (cases v) simp_all
  have tw: "takeWhile (dead (live s)) (rev (activeConnections s)) = rev stale"
    using assms(1) scan_split(1) [OF assms(3) nd] by simp
  have dw: "dropWhile (dead (live s)) (rev (activeConnections s)) = v # rev pre"
    using assms(1) scan_split(2) [OF assms(3) nd] by simp
  show ?thesis
    by (simp add: getPoolConnection_closed acquire_closed_def tw dw vs Let_def)
qed

theorem acquire_returns_falsy_entry_witness:
  "activeConnections ((initial {} (\<lambda>c. None))\<lparr>activeConnections := [Conn 7, Null, Conn 3]\<rparr>)
     = [Conn 7] @ Null # [Conn 3] \<and>
   \<not> truthy Null \<and>
   dead (live ((initial {} (\<lambda>c. None))\<lparr>activeConnections := [Conn 7, Null, Conn 3]\<rparr>))
     (Conn 3) \<and>
   getPoolConnection env_ok
       ((initial {} (\<lambda>c. None))\<lparr>activeConnections := [Conn 7, Null, Conn 3]\<rparr>) =
     (Inr Null,
      (initial {} (\<lambda>c. None))\<lparr>activeConnections := [Conn 7], validChecks := [3], ended := [3]\<rparr>)"
  using acquire_returns_falsy_entry
    [of "(initial {} (\<lambda>c. None))\<lparr>activeConnections := [Conn 7, Null, Conn 3]\<rparr>"
        "[Conn 7]" Null "[Conn 3]" env_ok]
  by (simp add: initial_def)

end
